theory Spec2Isabelle
  imports Main "HOL-Library.Char_ord" "HOL-Library.List_Lexorder" "HOL-Library.Multiset"
begin

section \<open>heic2jpg: the batch HEIC/HEIF to JPEG converter\<close>

text \<open>
  A shallow embedding of \<^verbatim>\<open>src/heic2jpg.py\<close>. The worker \<^verbatim>\<open>_convert_one\<close> is a function
  of the file system it runs on and of the image library it calls; both are explicit
  arguments. Every call into Pillow that can raise returns a sum, with the exception
  on the left. The file system is sequential: nothing else changes it while one worker
  runs. \<^verbatim>\<open>Path.exists\<close> and \<^verbatim>\<open>Path.stat\<close> are taken not to raise, and exceptions
  outside \<^verbatim>\<open>Exception\<close> (a keyboard interrupt) are not modelled.
\<close>

subsection \<open>Exceptions\<close>

text \<open>
  Only the class of an exception decides which handler takes it. The three classes
  named by the worker's \<^verbatim>\<open>except (UnidentifiedImageError, OSError, ValueError)\<close> are
  kept apart; \<open>OtherException\<close> stands for every other subclass of \<^verbatim>\<open>Exception\<close>
  (Pillow's \<^verbatim>\<open>DecompressionBombError\<close>, \<^verbatim>\<open>MemoryError\<close>, \<^verbatim>\<open>struct.error\<close>,
  \<^verbatim>\<open>TypeError\<close>, ...). An exception carries what \<^verbatim>\<open>str(e)\<close> and \<^verbatim>\<open>repr(e)\<close> print.
\<close>

datatype exn_class = UnidentifiedImageError | OSError | ValueError | OtherException

datatype exn = Exn (exn_cls: exn_class) (exn_str: string) (exn_repr: string)

definition caught :: "exn \<Rightarrow> bool" where
  "caught e = (exn_cls e \<in> set [UnidentifiedImageError, OSError, ValueError])"

subsection \<open>Paths\<close>

text \<open>
  A path is the string \<^verbatim>\<open>str(Path(...))\<close> of a normalised POSIX path. \<open>path_name\<close>
  and \<open>path_suffix\<close> follow \<^verbatim>\<open>PurePath.name\<close> and \<^verbatim>\<open>PurePath.suffix\<close>
  (\<^verbatim>\<open>i = name.rfind('.')\<close>, a suffix when \<^verbatim>\<open>0 < i < len(name) - 1\<close>), and
  \<open>with_suffix\<close> follows \<^verbatim>\<open>PurePath.with_suffix\<close>, which raises \<^verbatim>\<open>ValueError\<close> on an
  empty name.
\<close>

type_synonym path = string
type_synonym bytes = string

definition path_name :: "path \<Rightarrow> string" where
  "path_name p =
     (if p = ''.'' then [] else rev (takeWhile (\<lambda>c. c \<noteq> CHR ''/'') (rev p)))"

definition path_suffix :: "path \<Rightarrow> string" where
  "path_suffix p =
     (let name = path_name p;
          ext = rev (takeWhile (\<lambda>c. c \<noteq> CHR ''.'') (rev name))
      in if CHR ''.'' \<in> set name \<and> ext \<noteq> [] \<and> length ext + 2 \<le> length name
         then CHR ''.'' # ext else [])"

definition empty_name_error :: "path \<Rightarrow> exn" where
  "empty_name_error p =
     Exn ValueError (p @ '' has an empty name'') (''ValueError('' @ p @ '' has an empty name)'')"

definition with_suffix :: "path \<Rightarrow> string \<Rightarrow> exn + path" where
  "with_suffix p suffix =
     (if path_name p = [] then Inl (empty_name_error p)
      else if path_suffix p = [] then Inr (p @ suffix)
      else Inr (take (length p - length (path_suffix p)) p @ suffix))"

definition lower_char :: "char \<Rightarrow> char" where
  "lower_char c =
     (case map_of (zip ''ABCDEFGHIJKLMNOPQRSTUVWXYZ'' ''abcdefghijklmnopqrstuvwxyz'') c of
        Some d \<Rightarrow> d | None \<Rightarrow> c)"

definition upper_char :: "char \<Rightarrow> char" where
  "upper_char c =
     (case map_of (zip ''abcdefghijklmnopqrstuvwxyz'' ''ABCDEFGHIJKLMNOPQRSTUVWXYZ'') c of
        Some d \<Rightarrow> d | None \<Rightarrow> c)"

definition lower :: "string \<Rightarrow> string" where
  "lower s = map lower_char s"

definition upper :: "string \<Rightarrow> string" where
  "upper s = map upper_char s"

subsection \<open>Module constants\<close>

text \<open>
  \<^verbatim>\<open>HEIF_EXTS\<close> is a Python set; the list gives it an iteration order, which only
  decides the order among paths that lower-case to the same string.
\<close>

definition HEIF_EXTS :: "string list" where
  "HEIF_EXTS = [''.heic'', ''.heif'', ''.heics'', ''.heifs'']"

definition DEFAULT_QUALITY :: int where
  "DEFAULT_QUALITY = 92"

definition DEFAULT_SUBSAMPLING :: int where
  "DEFAULT_SUBSAMPLING = 2"

definition DEFAULT_OPTIMIZE :: bool where
  "DEFAULT_OPTIMIZE = True"

definition DEFAULT_PROGRESSIVE :: bool where
  "DEFAULT_PROGRESSIVE = True"

subsection \<open>The file system seen by one worker\<close>

text \<open>
  \<open>files\<close> maps a path to the bytes stored there, \<open>None\<close> when nothing exists at the
  path. \<open>unlink_error\<close> is what the operating system answers to \<^verbatim>\<open>Path.unlink\<close> on a
  path it refuses to remove (a permission error, a locked file, a directory).
\<close>

record world =
  files :: "path \<rightharpoonup> bytes"
  unlink_error :: "path \<Rightarrow> exn option"

definition path_exists :: "world \<Rightarrow> path \<Rightarrow> bool" where
  "path_exists w p = (files w p \<noteq> None)"

definition st_size :: "world \<Rightarrow> path \<Rightarrow> nat" where
  "st_size w p = (case files w p of None \<Rightarrow> 0 | Some b \<Rightarrow> length b)"

definition file_not_found :: "path \<Rightarrow> exn" where
  "file_not_found p =
     Exn OSError (''[Errno 2] No such file or directory: '' @ p)
       (''FileNotFoundError(2, No such file or directory)'')"

definition unlink :: "world \<Rightarrow> path \<Rightarrow> exn option \<times> world" where
  "unlink w p =
     (case unlink_error w p of
        Some e \<Rightarrow> (Some e, w)
      | None \<Rightarrow>
         (case files w p of
            None \<Rightarrow> (Some (file_not_found p), w)
          | Some b \<Rightarrow> (None, w\<lparr>files := (files w)(p := None)\<rparr>)))"

subsection \<open>Images and the image library\<close>

record image =
  mode :: string
  getbands :: "string list"
  pixels :: bytes
  info_icc_profile :: "bytes option"

text \<open>
  The keyword arguments \<^verbatim>\<open>_save_jpeg\<close> hands to \<^verbatim>\<open>Image.save\<close>; an absent key is \<open>None\<close>.
\<close>

record save_kwargs =
  kw_format :: string
  kw_quality :: int
  kw_subsampling :: int
  kw_optimize :: bool
  kw_progressive :: bool
  kw_exif :: "bytes option"
  kw_icc_profile :: "bytes option"

text \<open>
  The image library, as the worker uses it. \<open>image_save im kw old\<close> is
  \<^verbatim>\<open>im.save(dst_path, **kw)\<close> where \<open>old\<close> is what the destination held before: it
  answers the exception raised, if any, and what the destination holds afterwards, so
  a failed or fault-injected encoder may leave nothing, an empty file or a partial one.
  The other fields, in the order of the record: the module flag \<^verbatim>\<open>_HAVE_CMS\<close>;
  \<^verbatim>\<open>Image.open\<close> on the bytes of the source; \<^verbatim>\<open>ImageOps.exif_transpose\<close>;
  \<^verbatim>\<open>im.getexif().tobytes()\<close>; \<^verbatim>\<open>im.convert(mode)\<close>; the white background with the
  RGBA image pasted through its alpha band; \<^verbatim>\<open>createProfile("sRGB")\<close> with the bytes of
  that profile; \<^verbatim>\<open>ImageCmsProfile(io.BytesIO(src_icc))\<close>, which either raises or does
  not; \<^verbatim>\<open>ImageCms.profileToProfile\<close> from the source profile to sRGB.
\<close>

record pil =
  have_cms :: bool
  image_open :: "bytes \<Rightarrow> exn + image"
  exif_transpose :: "image \<Rightarrow> exn + image"
  getexif_tobytes :: "image \<Rightarrow> exn + bytes"
  image_convert :: "image \<Rightarrow> string \<Rightarrow> exn + image"
  paste_on_background :: "image \<Rightarrow> exn + image"
  create_srgb_profile :: "exn + bytes"
  cms_profile :: "bytes \<Rightarrow> exn option"
  profile_to_profile :: "image \<Rightarrow> bytes \<Rightarrow> exn + image"
  image_save :: "image \<Rightarrow> save_kwargs \<Rightarrow> bytes option \<Rightarrow> exn option \<times> bytes option"

text \<open>
  \<^verbatim>\<open>_exif_orient_and_flatten\<close>: orientation again, then alpha flattened over the white
  background, or a plain conversion to RGB.
\<close>

definition exif_orient_and_flatten :: "pil \<Rightarrow> image \<Rightarrow> exn + image" where
  "exif_orient_and_flatten P im =
     (case exif_transpose P im of
        Inl e \<Rightarrow> Inl e
      | Inr im1 \<Rightarrow>
          if ''A'' \<in> set (getbands im1) then
            (case image_convert P im1 ''RGBA'' of
               Inl e \<Rightarrow> Inl e
             | Inr im_rgba \<Rightarrow> paste_on_background P im_rgba)
          else if mode im1 \<noteq> ''RGB'' then image_convert P im1 ''RGB''
          else Inr im1)"

text \<open>
  \<^verbatim>\<open>_convert_to_srgb\<close>. Each \<^verbatim>\<open>except Exception\<close> of the source is a branch that
  returns the image it holds at that point together with the source profile; the
  function itself never raises.
\<close>

definition convert_to_srgb :: "pil \<Rightarrow> image \<Rightarrow> bytes option \<Rightarrow> image \<times> bytes option" where
  "convert_to_srgb P im src_icc =
     (if \<not> have_cms P then (im, src_icc)
      else
        (case create_srgb_profile P of
           Inl e \<Rightarrow> (im, src_icc)
         | Inr srgb_bytes \<Rightarrow>
             (case src_icc of
                None \<Rightarrow> (im, Some srgb_bytes)
              | Some icc \<Rightarrow>
                  if icc = [] then (im, Some srgb_bytes)
                  else
                    (case cms_profile P icc of
                       Some e \<Rightarrow> (im, src_icc)
                     | None \<Rightarrow>
                         (case (if mode im \<noteq> ''RGB'' then image_convert P im ''RGB''
                                else Inr im) of
                            Inl e \<Rightarrow> (im, src_icc)
                          | Inr im1 \<Rightarrow>
                              (case profile_to_profile P im1 icc of
                                 Inl e \<Rightarrow> (im1, src_icc)
                               | Inr im2 \<Rightarrow> (im2, Some srgb_bytes)))))))"

text \<open>A Python value used as a condition: \<^verbatim>\<open>None\<close> and \<^verbatim>\<open>b""\<close> are false.\<close>

definition truthy :: "bytes option \<Rightarrow> bool" where
  "truthy b = (case b of None \<Rightarrow> False | Some x \<Rightarrow> x \<noteq> [])"

subsection \<open>What a worker does to the file system\<close>

datatype event =
    EvOpen path
  | EvSave path image save_kwargs "exn option" "bytes option"
  | EvVerify path bool
  | EvUnlink path "exn option"

text \<open>
  \<open>apply_event\<close> replays one event on a file system, so the state at any moment of a run
  is the replay of the events before it.
\<close>

fun apply_event :: "world \<Rightarrow> event \<Rightarrow> world" where
  "apply_event w (EvOpen p) = w"
| "apply_event w (EvSave p im kw e c) = w\<lparr>files := (files w)(p := c)\<rparr>"
| "apply_event w (EvVerify p b) = w"
| "apply_event w (EvUnlink p None) = w\<lparr>files := (files w)(p := None)\<rparr>"
| "apply_event w (EvUnlink p (Some e)) = w"

definition replay :: "world \<Rightarrow> event list \<Rightarrow> world" where
  "replay w evs = foldl apply_event w evs"

text \<open>
  \<^verbatim>\<open>_save_jpeg\<close>: builds the keyword arguments (\<^verbatim>\<open>exif\<close> and \<^verbatim>\<open>icc_profile\<close> only when
  truthy) and saves.
\<close>

definition save_jpeg ::
  "pil \<Rightarrow> world \<Rightarrow> image \<Rightarrow> path \<Rightarrow> int \<Rightarrow> int \<Rightarrow> bool \<Rightarrow> bool \<Rightarrow> bytes option \<Rightarrow> bytes option
     \<Rightarrow> exn option \<times> world \<times> event list" where
  "save_jpeg P w im dst_path quality subsampling optimize progressive exif icc_profile =
     (let save_kw = \<lparr>kw_format = ''JPEG'', kw_quality = quality,
                     kw_subsampling = subsampling, kw_optimize = optimize,
                     kw_progressive = progressive,
                     kw_exif = (if truthy exif then exif else None),
                     kw_icc_profile = (if truthy icc_profile then icc_profile else None)\<rparr>;
          (err, content) = image_save P im save_kw (files w dst_path)
      in (err, w\<lparr>files := (files w)(dst_path := content)\<rparr>,
          [EvSave dst_path im save_kw err content]))"

text \<open>
  The statements of the \<^verbatim>\<open>with Image.open(src_path) as im:\<close> block before the save:
  orientation, EXIF bytes, source profile, flattening, colour management. It answers
  the image to encode, the EXIF argument and the profile to embed.
\<close>

definition prepare :: "pil \<Rightarrow> image \<Rightarrow> string \<Rightarrow> exn + (image \<times> bytes option \<times> bytes option)" where
  "prepare P im0 icc_mode =
     (case exif_transpose P im0 of
        Inl e \<Rightarrow> Inl e
      | Inr im1 \<Rightarrow>
         (case getexif_tobytes P im1 of
            Inl e \<Rightarrow> Inl e
          | Inr exif_bytes \<Rightarrow>
             (let src_icc = info_icc_profile im1 in
              case exif_orient_and_flatten P im1 of
                Inl e \<Rightarrow> Inl e
              | Inr im2 \<Rightarrow>
                 (let (im3, icc_to_embed) =
                        (if icc_mode = ''srgb'' then convert_to_srgb P im2 src_icc
                         else if icc_mode = ''keep'' then (im2, src_icc)
                         else (im2, None))
                  in Inr (im3, (if exif_bytes \<noteq> [] then Some exif_bytes else None),
                          icc_to_embed)))))"

definition with_block ::
  "pil \<Rightarrow> world \<Rightarrow> path \<Rightarrow> path \<Rightarrow> int \<Rightarrow> int \<Rightarrow> bool \<Rightarrow> bool \<Rightarrow> string
     \<Rightarrow> exn option \<times> world \<times> event list" where
  "with_block P w src_path dst_path quality subsampling optimize progressive icc_mode =
     (case files w src_path of
        None \<Rightarrow> (Some (file_not_found src_path), w, [EvOpen src_path])
      | Some data \<Rightarrow>
         (case image_open P data of
            Inl e \<Rightarrow> (Some e, w, [EvOpen src_path])
          | Inr im0 \<Rightarrow>
             (case prepare P im0 icc_mode of
                Inl e \<Rightarrow> (Some e, w, [EvOpen src_path])
              | Inr (im, exif, icc_to_embed) \<Rightarrow>
                 (let (err, w1, evs) =
                        save_jpeg P w im dst_path quality subsampling optimize progressive
                          exif icc_to_embed
                  in (err, w1, EvOpen src_path # evs)))))"

text \<open>
  The cleanup both failure paths run:
  \<^verbatim>\<open>try: if dst_path.exists(): dst_path.unlink() except Exception: pass\<close>.
\<close>

definition cleanup :: "world \<Rightarrow> path \<Rightarrow> world \<times> event list" where
  "cleanup w dst_path =
     (if path_exists w dst_path then
        (let (err, w1) = unlink w dst_path in (w1, [EvUnlink dst_path err]))
      else (w, []))"

type_synonym outcome = "string \<times> string \<times> string"

text \<open>
  The body of the \<^verbatim>\<open>try\<close>: the \<^verbatim>\<open>with\<close> block, then verification, then deletion of
  the source or cleanup. \<open>Inl\<close> is an exception on its way to the \<^verbatim>\<open>except\<close> clause.
\<close>

definition try_body ::
  "pil \<Rightarrow> world \<Rightarrow> path \<Rightarrow> path \<Rightarrow> int \<Rightarrow> int \<Rightarrow> bool \<Rightarrow> bool \<Rightarrow> string
     \<Rightarrow> (exn + outcome) \<times> world \<times> event list" where
  "try_body P w src_path dst_path quality subsampling optimize progressive icc_mode =
     (case with_block P w src_path dst_path quality subsampling optimize progressive icc_mode of
        (Some e, w1, evs) \<Rightarrow> (Inl e, w1, evs)
      | (None, w1, evs) \<Rightarrow>
          if path_exists w1 dst_path \<and> st_size w1 dst_path > 0 then
            (case unlink w1 src_path of
               (Some del_err, w2) \<Rightarrow>
                 (Inr (''converted'', src_path,
                       dst_path @ '' (warning: could not delete source: '' @ exn_str del_err @ '')''),
                  w2, evs @ [EvVerify dst_path True, EvUnlink src_path (Some del_err)])
             | (None, w2) \<Rightarrow>
                 (Inr (''converted'', src_path, dst_path),
                  w2, evs @ [EvVerify dst_path True, EvUnlink src_path None]))
          else
            (let (w2, evs2) = cleanup w1 dst_path
             in (Inr (''failed'', src_path, ''empty or missing output''),
                 w2, evs @ [EvVerify dst_path False] @ evs2)))"

text \<open>
  \<^verbatim>\<open>_convert_one\<close>. It answers the returned tuple (or the exception that leaves the
  function), the file system afterwards and the events in the order they happened.
\<close>

definition convert_one ::
  "pil \<Rightarrow> world \<Rightarrow> string \<Rightarrow> bool \<Rightarrow> int \<Rightarrow> int \<Rightarrow> bool \<Rightarrow> bool \<Rightarrow> string
     \<Rightarrow> (exn + outcome) \<times> world \<times> event list" where
  "convert_one P w src overwrite quality subsampling optimize progressive icc_mode =
     (case with_suffix src ''.jpg'' of
        Inl e \<Rightarrow> (Inl e, w, [])
      | Inr dst_path \<Rightarrow>
          if path_exists w dst_path \<and> \<not> overwrite then
            (Inr (''skipped'', src, ''destination exists''), w, [])
          else
            (case try_body P w src dst_path quality subsampling optimize progressive icc_mode of
               (Inr out, w1, evs) \<Rightarrow> (Inr out, w1, evs)
             | (Inl e, w1, evs) \<Rightarrow>
                 if caught e then
                   (let (w2, evs2) = cleanup w1 dst_path
                    in (Inr (''failed'', src, exn_repr e), w2, evs @ evs2))
                 else (Inl e, w1, evs)))"


text \<open>
  The \<^verbatim>\<open>try\<close> block of \<^verbatim>\<open>_convert_to_srgb\<close> raises: the source profile does not
  parse, or the conversion to RGB or the profile-to-profile transform fails.
\<close>

definition transform_fails :: "pil \<Rightarrow> image \<Rightarrow> bytes \<Rightarrow> bool" where
  "transform_fails P im icc =
     (case cms_profile P icc of
        Some e \<Rightarrow> True
      | None \<Rightarrow>
          (case (if mode im \<noteq> ''RGB'' then image_convert P im ''RGB'' else Inr im) of
             Inl e \<Rightarrow> True
           | Inr im1 \<Rightarrow>
               (case profile_to_profile P im1 icc of Inl e \<Rightarrow> True | Inr im2 \<Rightarrow> False)))"

text \<open>The events of a run that are calls of \<^verbatim>\<open>Path.unlink\<close>.\<close>

fun is_unlink :: "event \<Rightarrow> bool" where
  "is_unlink (EvUnlink p r) = True"
| "is_unlink ev = False"

subsection \<open>Discovery\<close>

text \<open>
  What \<^verbatim>\<open>find_heif_files\<close> reads of the file system: \<open>walk T p\<close> lists every entry
  below the directory \<open>p\<close>, at any depth, in the order the traversal meets them.
\<close>

record tree =
  is_dir :: "path \<Rightarrow> bool"
  is_file :: "path \<Rightarrow> bool"
  walk :: "path \<Rightarrow> path list"
  resolve :: "path \<Rightarrow> path"

definition ends_with :: "string \<Rightarrow> string \<Rightarrow> bool" where
  "ends_with s t = (length t \<le> length s \<and> drop (length s - length t) s = t)"

text \<open>
  \<^verbatim>\<open>p.rglob(f"*{ext}")\<close>: the pattern has no wildcard but the leading star, so it
  matches the names that end in \<open>ext\<close>. pathlib compares with the case rules of its
  path flavour, not of the file system: exactly on POSIX (\<open>case_sensitive\<close>), with
  both sides case-folded on Windows.
\<close>

definition pattern_matches :: "bool \<Rightarrow> string \<Rightarrow> string \<Rightarrow> bool" where
  "pattern_matches case_sensitive name ext =
     (if case_sensitive then ends_with name ext else ends_with (lower name) (lower ext))"

definition rglob :: "bool \<Rightarrow> tree \<Rightarrow> path \<Rightarrow> string \<Rightarrow> path list" where
  "rglob case_sensitive T p ext =
     filter (\<lambda>f. pattern_matches case_sensitive (path_name f) ext) (walk T p)"

definition scan_root :: "bool \<Rightarrow> tree \<Rightarrow> path \<Rightarrow> path list" where
  "scan_root case_sensitive T p =
     (if is_dir T p then
        concat (map (\<lambda>ext. rglob case_sensitive T p ext @ rglob case_sensitive T p (upper ext))
                  HEIF_EXTS)
      else if is_file T p \<and> lower (path_suffix p) \<in> set HEIF_EXTS then [p]
      else [])"

text \<open>
  A Python dict as an association list in insertion order: storing under a key already
  present replaces the value where it stands.
\<close>

fun dict_set :: "('k \<times> 'v) list \<Rightarrow> 'k \<Rightarrow> 'v \<Rightarrow> ('k \<times> 'v) list" where
  "dict_set [] k v = [(k, v)]"
| "dict_set ((k', v') # d) k v = (if k' = k then (k, v) # d else (k', v') # dict_set d k v)"

definition find_heif_files :: "bool \<Rightarrow> tree \<Rightarrow> path list \<Rightarrow> path list" where
  "find_heif_files case_sensitive T paths =
     (let found = concat (map (scan_root case_sensitive T) paths);
          unique = foldl (\<lambda>d f. dict_set d (resolve T f) f) [] found
      in sort_key lower (map snd unique))"

text \<open>
  A source item: a path whose name ends in a recognised extension, in any letter case.
  Both branches of \<open>scan_root\<close> yield only such paths.
\<close>

definition is_source_item :: "path \<Rightarrow> bool" where
  "is_source_item p = list_ex (\<lambda>ext. ends_with (lower (path_name p)) ext) HEIF_EXTS"

subsection \<open>The driver\<close>

record args =
  arg_paths :: "path list"
  arg_workers :: int
  arg_quality :: int
  arg_overwrite :: bool
  arg_icc :: string

text \<open>One \<^verbatim>\<open>ex.submit(_convert_one, ...)\<close>: the arguments the worker will be called with.\<close>

record call =
  c_src :: string
  c_overwrite :: bool
  c_quality :: int
  c_subsampling :: int
  c_optimize :: bool
  c_progressive :: bool
  c_icc_mode :: string

definition submit_all :: "args \<Rightarrow> path list \<Rightarrow> call list" where
  "submit_all a heif_files =
     map (\<lambda>p. \<lparr>c_src = p, c_overwrite = arg_overwrite a,
               c_quality = max 1 (min 100 (arg_quality a)),
               c_subsampling = DEFAULT_SUBSAMPLING, c_optimize = DEFAULT_OPTIMIZE,
               c_progressive = DEFAULT_PROGRESSIVE, c_icc_mode = arg_icc a\<rparr>)
         heif_files"

definition run_call :: "pil \<Rightarrow> world \<Rightarrow> call \<Rightarrow> (exn + outcome) \<times> world \<times> event list" where
  "run_call P w c =
     convert_one P w (c_src c) (c_overwrite c) (c_quality c) (c_subsampling c)
       (c_optimize c) (c_progressive c) (c_icc_mode c)"

record run_stats =
  ok :: nat
  skipped :: nat
  failed :: nat

definition count_outcome :: "run_stats \<Rightarrow> outcome \<Rightarrow> run_stats" where
  "count_outcome st out =
     (case out of (status, src, info) \<Rightarrow>
        if status = ''converted'' then st\<lparr>ok := ok st + 1\<rparr>
        else if status = ''skipped'' then st\<lparr>skipped := skipped st + 1\<rparr>
        else st\<lparr>failed := failed st + 1\<rparr>)"

text \<open>
  The loop \<^verbatim>\<open>for fut in as_completed(futures)\<close>. The list holds the futures in the
  order they complete, each with the value the \<^verbatim>\<open>stop\<close> flag has when the loop tests
  it after that completion; \<open>fut_result\<close> is \<^verbatim>\<open>fut.result()\<close>, which raises again what
  the worker raised. On \<^verbatim>\<open>stop\<close> the loop cancels what is left and breaks.
\<close>

fun drain :: "(call \<Rightarrow> exn + outcome) \<Rightarrow> run_stats \<Rightarrow> (call \<times> bool) list \<Rightarrow> exn + run_stats" where
  "drain fut_result st [] = Inr st"
| "drain fut_result st ((fut, stop) # rest) =
     (case fut_result fut of
        Inl e \<Rightarrow> Inl e
      | Inr out \<Rightarrow>
          (let st1 = count_outcome st out
           in if stop then Inr st1 else drain fut_result st1 rest))"

datatype main_result =
    Returned int "run_stats option"
  | Raised exn

text \<open>
  \<^verbatim>\<open>as_completed(futures)\<close> yields every submitted future once, in the order the pool
  finishes them. That order is the scheduler's: \<open>sched\<close> names, step by step, which of
  the futures still pending finishes next (its position among them, modulo their
  number); where \<open>sched\<close> ends, the rest finish in the order they were submitted.
\<close>

function as_completed :: "nat list \<Rightarrow> 'a list \<Rightarrow> 'a list" where
  "as_completed sched [] = []"
| "as_completed [] (f # pending) = f # pending"
| "as_completed (k # sched) (f # pending) =
     (let i = k mod length (f # pending)
      in (f # pending) ! i #
         as_completed sched (take i (f # pending) @ drop (Suc i) (f # pending)))"
  by pat_completeness auto
termination
  by (relation "measure (\<lambda>(sched, pending). length pending)") auto

text \<open>
  The values the loop reads from \<^verbatim>\<open>stop\<close>, one after each completion. The signal
  handler only ever sets the flag: with \<open>Some k\<close> it is set by the time of the test
  after completion \<open>k + 1\<close> and not before, with \<open>None\<close> it is never set.
\<close>

fun stop_flags :: "nat option \<Rightarrow> nat \<Rightarrow> bool list" where
  "stop_flags stop_after 0 = []"
| "stop_flags None (Suc n) = False # stop_flags None n"
| "stop_flags (Some 0) (Suc n) = True # stop_flags (Some 0) n"
| "stop_flags (Some (Suc k)) (Suc n) = False # stop_flags (Some k) n"

text \<open>
  \<^verbatim>\<open>main\<close> after argument parsing. \<open>answer\<close> is what \<^verbatim>\<open>prompt_yes_no\<close> returned.
  Every discovered file is submitted, and the loop runs over the futures submitted, in
  the order they complete. The statistics are the three numbers of the last line
  printed.
\<close>

definition main ::
  "bool \<Rightarrow> tree \<Rightarrow> args \<Rightarrow> bool \<Rightarrow> (call \<Rightarrow> exn + outcome) \<Rightarrow> nat list \<Rightarrow> nat option
     \<Rightarrow> main_result" where
  "main case_sensitive T a answer fut_result sched stop_after =
     (let roots = map (resolve T) (arg_paths a);
          heif_files = find_heif_files case_sensitive T roots;
          total = length heif_files
      in if total = 0 then Returned 0 None
         else if \<not> answer then Returned 0 None
         else
           (let futures = submit_all a heif_files;
                completed = zip (as_completed sched futures) (stop_flags stop_after total)
            in case drain fut_result \<lparr>ok = 0, skipped = 0, failed = 0\<rparr> completed of
                 Inl e \<Rightarrow> Raised e
               | Inr st \<Rightarrow> Returned (if failed st = 0 then 0 else 2) (Some st)))"


text \<open>
  The completions the loop handles before it stops: all of them, or those up to the
  first one after which \<^verbatim>\<open>stop\<close> is set.
\<close>

fun drained :: "(call \<times> bool) list \<Rightarrow> call list" where
  "drained [] = []"
| "drained ((fut, stop) # rest) = fut # (if stop then [] else drained rest)"


subsection \<open>A small installation, for concrete runs\<close>

text \<open>
  A library on which every stage succeeds, except that the bytes \<open>corrupt\<close> do not
  open; a folder holding one source; and a command line asking for quality 250.
\<close>

definition demo_image :: image where
  "demo_image = \<lparr>mode = ''RGB'', getbands = [''R'', ''G'', ''B''], pixels = ''pixels'',
                  info_icc_profile = Some ''profile-X''\<rparr>"

definition cannot_identify :: exn where
  "cannot_identify =
     Exn UnidentifiedImageError ''cannot identify image file''
       ''UnidentifiedImageError(cannot identify image file)''"

definition demo_pil :: pil where
  "demo_pil =
     \<lparr>have_cms = True,
      image_open = (\<lambda>data. if data = ''corrupt'' then Inl cannot_identify else Inr demo_image),
      exif_transpose = Inr,
      getexif_tobytes = (\<lambda>im. Inr ''exif''),
      image_convert = (\<lambda>im m. Inr (im\<lparr>mode := m\<rparr>)),
      paste_on_background = Inr,
      create_srgb_profile = Inr ''sRGB'',
      cms_profile = (\<lambda>icc. None),
      profile_to_profile = (\<lambda>im icc. Inr im),
      image_save = (\<lambda>im kw old. (None, Some ''jpeg-data''))\<rparr>"

definition demo_world :: world where
  "demo_world = \<lparr>files = [''/p/a.heic'' \<mapsto> ''heic-data''], unlink_error = (\<lambda>p. None)\<rparr>"

definition demo_kwargs :: save_kwargs where
  "demo_kwargs = \<lparr>kw_format = ''JPEG'', kw_quality = 92, kw_subsampling = 2, kw_optimize = True,
      kw_progressive = True, kw_exif = Some ''exif'', kw_icc_profile = Some ''sRGB''\<rparr>"

definition permission_denied :: exn where
  "permission_denied =
     Exn OSError ''[Errno 13] Permission denied'' ''PermissionError(13, Permission denied)''"

definition disk_full :: exn where
  "disk_full =
     Exn OSError ''[Errno 28] No space left on device''
       ''OSError(28, No space left on device)''"


definition profile_error :: exn where
  "profile_error =
     Exn OtherException ''cannot open profile from string''
       ''PyCMSError(cannot open profile from string)''"

text \<open>The same folder with a JPEG already beside the source.\<close>

definition existing_world :: world where
  "existing_world =
     \<lparr>files = [''/p/a.heic'' \<mapsto> ''heic-data'', ''/p/a.jpg'' \<mapsto> ''old-jpeg''],
      unlink_error = (\<lambda>p. None)\<rparr>"

text \<open>A folder with a corrupt source beside an older JPEG.\<close>

definition corrupt_world :: world where
  "corrupt_world =
     \<lparr>files = [''/p/c.heic'' \<mapsto> ''corrupt'', ''/p/c.jpg'' \<mapsto> ''old-jpeg''],
      unlink_error = (\<lambda>p. None)\<rparr>"

text \<open>
  The folders again, now read-only: files in them can be written, none can be removed.
\<close>

definition readonly_world :: world where
  "readonly_world =
     \<lparr>files = [''/p/a.heic'' \<mapsto> ''heic-data'', ''/p/a.jpg'' \<mapsto> ''old-jpeg''],
      unlink_error = (\<lambda>p. Some permission_denied)\<rparr>"

definition readonly_corrupt_world :: world where
  "readonly_corrupt_world =
     \<lparr>files = [''/p/c.heic'' \<mapsto> ''corrupt'', ''/p/c.jpg'' \<mapsto> ''old-jpeg''],
      unlink_error = (\<lambda>p. Some permission_denied)\<rparr>"

text \<open>
  Libraries that fail at one place: the encoder runs out of disk after writing a part;
  opening raises an exception outside the three classes; the source profile does not
  parse.
\<close>

definition full_disk_pil :: pil where
  "full_disk_pil = demo_pil\<lparr>image_save := (\<lambda>im kw old. (Some disk_full, Some ''partial''))\<rparr>"



definition bad_profile_pil :: pil where
  "bad_profile_pil = demo_pil\<lparr>cms_profile := (\<lambda>icc. Some profile_error)\<rparr>"


definition mixed_tree :: tree where
  "mixed_tree =
     \<lparr>is_dir = (\<lambda>p. p = ''/d''),
      is_file = (\<lambda>p. p = ''/d/IMG_1.HeiC''),
      walk = (\<lambda>p. if p = ''/d'' then [''/d/IMG_1.HeiC''] else []),
      resolve = (\<lambda>p. p)\<rparr>"




definition demo_args :: args where
  "demo_args = \<lparr>arg_paths = [''/p''], arg_workers = 4, arg_quality = 250,
                 arg_overwrite = False, arg_icc = ''srgb''\<rparr>"

section \<open>Properties\<close>

subsection \<open>The shapes of a run\<close>

text \<open>
  What each operation can answer, and the few event sequences a worker can produce;
  the properties below are read off these.
\<close>

lemma unlink_cases:
  "unlink w p = (r, w1) \<Longrightarrow>
     unlink_error w1 = unlink_error w \<and>
     (case r of None \<Rightarrow> files w p \<noteq> None \<and> unlink_error w p = None \<and> w1 = w\<lparr>files := (files w)(p := None)\<rparr>
              | Some e \<Rightarrow> w1 = w \<and> (unlink_error w p = Some e \<or> unlink_error w p = None \<and> files w p = None))"
  by (auto simp: unlink_def split: option.splits)

lemma cleanup_cases:
  "cleanup w d = (w1, evs) \<Longrightarrow>
     (evs = [] \<and> w1 = w \<and> files w d = None) \<or>
     (\<exists>r. evs = [EvUnlink d r] \<and> unlink w d = (r, w1) \<and> files w d \<noteq> None)"
  by (auto simp: cleanup_def path_exists_def split: if_splits prod.splits)

lemma with_block_cases:
  "with_block P w src dst q ss opt prog icc = (err, w1, evs) \<Longrightarrow>
     (evs = [EvOpen src] \<and> w1 = w \<and> err \<noteq> None) \<or>
     (\<exists>im kw c. evs = [EvOpen src, EvSave dst im kw err c] \<and>
                 w1 = w\<lparr>files := (files w)(dst := c)\<rparr> \<and>
                 image_save P im kw (files w dst) = (err, c))"
  by (auto simp: with_block_def save_jpeg_def Let_def split: option.splits sum.splits prod.splits)

lemma try_body_cases:
  assumes "try_body P w src dst q ss opt prog icc = (res, w2, evs)"
  shows "(\<exists>e. res = Inl e \<and> evs = [EvOpen src] \<and> w2 = w) \<or>
         (\<exists>e im kw c. res = Inl e \<and> evs = [EvOpen src, EvSave dst im kw (Some e) c] \<and>
              w2 = w\<lparr>files := (files w)(dst := c)\<rparr>) \<or>
         (\<exists>im kw b r m. res = Inr (''converted'', src, m) \<and> b \<noteq> [] \<and>
              evs = [EvOpen src, EvSave dst im kw None (Some b), EvVerify dst True, EvUnlink src r] \<and>
              unlink (w\<lparr>files := (files w)(dst \<mapsto> b)\<rparr>) src = (r, w2)) \<or>
         (\<exists>im kw c cl. res = Inr (''failed'', src, ''empty or missing output'') \<and>
              (c = None \<or> c = Some []) \<and>
              evs = [EvOpen src, EvSave dst im kw None c, EvVerify dst False] @ cl \<and>
              cleanup (w\<lparr>files := (files w)(dst := c)\<rparr>) dst = (w2, cl))"
proof -
  obtain err w1 evs1 where wb: "with_block P w src dst q ss opt prog icc = (err, w1, evs1)"
    by (cases "with_block P w src dst q ss opt prog icc") auto
  from with_block_cases[OF wb] show ?thesis
    using assms wb
    by (auto simp: try_body_def path_exists_def st_size_def split: option.splits prod.splits if_splits)
qed


lemma convert_one_cases:
  assumes "convert_one P w src ov q ss opt prog icc = (res, w', evs)"
      and "with_suffix src ''.jpg'' = Inr dst"
  shows "(path_exists w dst \<and> \<not> ov \<and> res = Inr (''skipped'', src, ''destination exists'') \<and>
          w' = w \<and> evs = []) \<or>
         (\<not> (path_exists w dst \<and> \<not> ov) \<and>
          (\<exists>out. try_body P w src dst q ss opt prog icc = (Inr out, w', evs) \<and> res = Inr out)) \<or>
         (\<not> (path_exists w dst \<and> \<not> ov) \<and>
          (\<exists>e w2 evs2 cl. try_body P w src dst q ss opt prog icc = (Inl e, w2, evs2) \<and> caught e \<and>
              cleanup w2 dst = (w', cl) \<and> evs = evs2 @ cl \<and>
              res = Inr (''failed'', src, exn_repr e))) \<or>
         (\<not> (path_exists w dst \<and> \<not> ov) \<and>
          (\<exists>e. try_body P w src dst q ss opt prog icc = (Inl e, w', evs) \<and> \<not> caught e \<and>
              res = Inl e))"
proof (cases "path_exists w dst \<and> \<not> ov")
  case True
  with assms show ?thesis by (simp add: convert_one_def)
next
  case False
  obtain r w2 evs2 where tb: "try_body P w src dst q ss opt prog icc = (r, w2, evs2)"
    by (cases "try_body P w src dst q ss opt prog icc") auto
  show ?thesis
  proof (cases r)
    case (Inr out)
    with assms False tb have "res = Inr out \<and> w' = w2 \<and> evs = evs2"
      by (simp add: convert_one_def)
    with tb Inr False show ?thesis by blast
  next
    case (Inl e)
    show ?thesis
    proof (cases "caught e")
      case True
      obtain w3 cl where cl: "cleanup w2 dst = (w3, cl)" by (cases "cleanup w2 dst") auto
      with assms False tb Inl True
      have "res = Inr (''failed'', src, exn_repr e) \<and> w' = w3 \<and> evs = evs2 @ cl"
        by (simp add: convert_one_def)
      with tb Inl False True cl show ?thesis by blast
    next
      case nc: False
      with assms False tb Inl have "res = Inl e \<and> w' = w2 \<and> evs = evs2"
        by (simp add: convert_one_def)
      with tb Inl False nc show ?thesis by blast
    qed
  qed
qed

lemma replay_Nil: "replay w [] = w"
  by (simp add: replay_def)

lemma replay_Cons: "replay w (ev # evs) = replay (apply_event w ev) evs"
  by (simp add: replay_def)

lemma replay_append: "replay w (xs @ ys) = replay (replay w xs) ys"
  by (simp add: replay_def)

lemma unlink_replay: "unlink w p = (r, w1) \<Longrightarrow> apply_event w (EvUnlink p r) = w1"
  by (cases r) (auto simp: unlink_def split: option.splits)

lemma cleanup_replay: "cleanup w d = (w1, cl) \<Longrightarrow> replay w cl = w1"
  by (auto dest!: cleanup_cases simp: replay_Nil replay_Cons unlink_replay)

lemma try_body_replay:
  "try_body P w src dst q ss opt prog icc = (r, w2, evs) \<Longrightarrow> replay w evs = w2"
  by (auto dest!: try_body_cases simp: replay_Nil replay_Cons replay_append unlink_replay cleanup_replay)

lemma convert_one_replay:
  assumes "convert_one P w src ov q ss opt prog icc = (res, w', evs)"
  shows "replay w evs = w'"
proof (cases "with_suffix src ''.jpg''")
  case (Inl e)
  with assms show ?thesis by (simp add: convert_one_def replay_Nil)
next
  case (Inr dst)
  from convert_one_cases[OF assms Inr] show ?thesis
    by (elim disjE conjE exE) (simp_all add: replay_Nil replay_append try_body_replay cleanup_replay)
qed

subsection \<open>What Discovery yields\<close>

text \<open>
  Every path \<open>find_heif_files\<close> returns is a source item, and the destination derived
  from a source item is never the source itself.
\<close>

lemma ends_with_iff: "ends_with s t \<longleftrightarrow> (\<exists>u. s = u @ t)"
  unfolding ends_with_def
proof
  assume a: "length t \<le> length s \<and> drop (length s - length t) s = t"
  then have "s = take (length s - length t) s @ t"
    by (metis append_take_drop_id)
  then show "\<exists>u. s = u @ t" ..
next
  assume "\<exists>u. s = u @ t"
  then show "length t \<le> length s \<and> drop (length s - length t) s = t" by auto
qed

lemma ends_with_lower: "ends_with s t \<Longrightarrow> ends_with (lower s) (lower t)"
  by (auto simp: ends_with_iff lower_def)

lemma lower_exts:
  "ext \<in> set HEIF_EXTS \<Longrightarrow> lower ext = ext \<and> lower (upper ext) = ext"
  by (auto simp: HEIF_EXTS_def lower_def upper_def lower_char_def upper_char_def)

lemma path_suffix_ends: "path_suffix p \<noteq> [] \<Longrightarrow> ends_with (path_name p) (path_suffix p)"
proof -
  assume a: "path_suffix p \<noteq> []"
  define n where "n = path_name p"
  define r where "r = rev n"
  define P where "P = (\<lambda>c. c \<noteq> CHR ''.'')"
  from a have dot: "CHR ''.'' \<in> set n"
    and sfx: "path_suffix p = CHR ''.'' # rev (takeWhile P r)"
    by (auto simp: path_suffix_def Let_def n_def r_def P_def split: if_splits)
  from dot have ne: "dropWhile P r \<noteq> []"
    by (simp add: r_def P_def)
  then have "\<not> P (hd (dropWhile P r))" by (rule hd_dropWhile)
  then have "hd (dropWhile P r) = CHR ''.''" by (simp add: P_def)
  with ne have ys: "dropWhile P r = CHR ''.'' # tl (dropWhile P r)"
    by (cases "dropWhile P r") auto
  have "rev r = rev (takeWhile P r @ dropWhile P r)" by simp
  also have "\<dots> = rev (dropWhile P r) @ rev (takeWhile P r)" by (rule rev_append)
  finally have "n = rev (dropWhile P r) @ rev (takeWhile P r)" by (simp add: r_def)
  also have "rev (dropWhile P r) = rev (tl (dropWhile P r)) @ [CHR ''.'']"
    by (subst ys) simp
  finally have "n = rev (tl (dropWhile P r)) @ path_suffix p" by (simp add: sfx)
  then show ?thesis unfolding ends_with_iff n_def by blast
qed

lemma scan_root_source_item: "f \<in> set (scan_root cs T p) \<Longrightarrow> is_source_item f"
proof -
  assume a: "f \<in> set (scan_root cs T p)"
  show ?thesis
  proof (cases "is_dir T p")
    case True
    with a obtain ext where ext: "ext \<in> set HEIF_EXTS"
      and m: "pattern_matches cs (path_name f) ext \<or> pattern_matches cs (path_name f) (upper ext)"
      by (auto simp: scan_root_def rglob_def)
    have l1: "lower ext = ext" and l2: "lower (upper ext) = ext"
      using lower_exts[OF ext] by simp_all
    have "ends_with (lower (path_name f)) ext"
    proof (cases cs)
      case True
      with m have "ends_with (path_name f) ext \<or> ends_with (path_name f) (upper ext)"
        by (simp add: pattern_matches_def)
      then show ?thesis
      proof
        assume "ends_with (path_name f) ext"
        from ends_with_lower[OF this] show ?thesis by (simp only: l1)
      next
        assume "ends_with (path_name f) (upper ext)"
        from ends_with_lower[OF this] show ?thesis by (simp only: l2)
      qed
    next
      case False
      with m have "ends_with (lower (path_name f)) (lower ext) \<or>
                   ends_with (lower (path_name f)) (lower (upper ext))"
        by (simp add: pattern_matches_def)
      then show ?thesis by (simp only: l1 l2 simp_thms)
    qed
    with ext show ?thesis by (auto simp: is_source_item_def list_ex_iff)
  next
    case False
    with a have fp: "f = p" and m: "lower (path_suffix p) \<in> set HEIF_EXTS"
      by (auto simp: scan_root_def split: if_splits)
    from m have "path_suffix p \<noteq> []" by (auto simp: HEIF_EXTS_def lower_def)
    from ends_with_lower[OF path_suffix_ends[OF this]] m fp show ?thesis
      by (auto simp: is_source_item_def list_ex_iff)
  qed
qed

lemma set_dict_set: "snd ` set (dict_set d k v) \<subseteq> insert v (snd ` set d)"
  by (induction d k v rule: dict_set.induct) auto

lemma set_foldl_dict_set:
  "snd ` set (foldl (\<lambda>d f. dict_set d (g f) f) d0 fs) \<subseteq> snd ` set d0 \<union> set fs"
proof (induction fs arbitrary: d0)
  case Nil
  then show ?case by simp
next
  case (Cons f fs)
  from Cons.IH[of "dict_set d0 (g f) f"] set_dict_set[of d0 "g f" f]
  show ?case by auto
qed

lemma discovered_source_item:
  "f \<in> set (find_heif_files cs T paths) \<Longrightarrow> is_source_item f"
proof -
  assume "f \<in> set (find_heif_files cs T paths)"
  then have "f \<in> snd ` set (foldl (\<lambda>d f. dict_set d (resolve T f) f) []
                 (concat (map (scan_root cs T) paths)))"
    by (simp add: find_heif_files_def Let_def)
  with set_foldl_dict_set[of "resolve T" "[]" "concat (map (scan_root cs T) paths)"]
  have "f \<in> set (concat (map (scan_root cs T) paths))" by auto
  then show ?thesis by (auto dest: scan_root_source_item)
qed

lemma last_path_name: "path_name p \<noteq> [] \<Longrightarrow> last (path_name p) = last p"
proof -
  assume a: "path_name p \<noteq> []"
  define P where "P = (\<lambda>c. c \<noteq> CHR ''/'')"
  from a have pn: "path_name p = rev (takeWhile P (rev p))" and ne: "takeWhile P (rev p) \<noteq> []"
    by (auto simp: path_name_def P_def split: if_splits)
  from ne have pne: "rev p \<noteq> []" by auto
  from ne have "hd (takeWhile P (rev p)) = hd (rev p)"
    by (cases "rev p") (auto split: if_splits)
  moreover have "last (rev (takeWhile P (rev p))) = hd (takeWhile P (rev p))"
    using ne by (simp add: last_rev)
  moreover have "hd (rev p) = last p" using pne by (simp add: hd_rev)
  ultimately show ?thesis by (simp add: pn)
qed

lemma source_item_last:
  assumes "is_source_item p"
  shows "p \<noteq> [] \<and> last p \<noteq> CHR ''g''"
proof -
  from assms obtain ext where ext: "ext \<in> set HEIF_EXTS"
    and e: "ends_with (lower (path_name p)) ext"
    by (auto simp: is_source_item_def list_ex_iff)
  from e obtain u where u: "lower (path_name p) = u @ ext" by (auto simp: ends_with_iff)
  from ext have extne: "ext \<noteq> []" and lastext: "last ext \<in> {CHR ''c'', CHR ''f'', CHR ''s''}"
    by (auto simp: HEIF_EXTS_def)
  from u extne have ne: "path_name p \<noteq> []" by (auto simp: lower_def)
  have "last (lower (path_name p)) = lower_char (last (path_name p))"
    using ne by (simp add: lower_def last_map)
  with u extne have "lower_char (last (path_name p)) = last ext" by simp
  with last_path_name[OF ne] have lc: "lower_char (last p) \<in> {CHR ''c'', CHR ''f'', CHR ''s''}"
    using lastext by simp
  have "lower_char CHR ''g'' = CHR ''g''" by (simp add: lower_char_def)
  with lc have "last p \<noteq> CHR ''g''" by auto
  moreover from ne have "p \<noteq> []" by (auto simp: path_name_def)
  ultimately show ?thesis by simp
qed

lemma with_suffix_last: "with_suffix p ''.jpg'' = Inr d \<Longrightarrow> last d = CHR ''g''"
  by (auto simp: with_suffix_def split: if_splits)

lemma source_item_dst_differs:
  "is_source_item src \<Longrightarrow> with_suffix src ''.jpg'' = Inr dst \<Longrightarrow> dst \<noteq> src"
  using source_item_last with_suffix_last by blast

subsection \<open>Events that delete\<close>

lemma split_at_fourth:
  "pre @ ev # post = [a, b, c, d] \<Longrightarrow> ev \<noteq> a \<Longrightarrow> ev \<noteq> b \<Longrightarrow> ev \<noteq> c \<Longrightarrow>
     pre = [a, b, c] \<and> ev = d \<and> post = []"
  by (auto simp: append_eq_Cons_conv)

lemma deleting_event:
  "files w p \<noteq> None \<Longrightarrow> files (apply_event w ev) p = None \<Longrightarrow>
     ev = EvUnlink p None \<or> (\<exists>im kw e. ev = EvSave p im kw e None)"
  by (cases "(w, ev)" rule: apply_event.cases) (auto split: if_splits)

lemma convert_one_trace:
  assumes "convert_one P w src ov q ss opt prog icc = (res, w', evs)"
      and "with_suffix src ''.jpg'' = Inr dst"
  shows "(\<exists>im kw b r. b \<noteq> [] \<and>
            evs = [EvOpen src, EvSave dst im kw None (Some b), EvVerify dst True, EvUnlink src r]) \<or>
         (\<forall>ev \<in> set evs. ev = EvOpen src \<or> (\<exists>im kw e c. ev = EvSave dst im kw e c) \<or>
            ev = EvVerify dst False \<or> (\<exists>r. ev = EvUnlink dst r))"
proof -
  have cl: "\<forall>ev \<in> set c. \<exists>r. ev = EvUnlink dst r" if "cleanup w0 dst = (w1, c)" for w0 w1 c
    using cleanup_cases[OF that] by auto
  from convert_one_cases[OF assms] show ?thesis
  proof (elim disjE conjE exE)
    assume "evs = []"
    then show ?thesis by simp
  next
    fix out
    assume "try_body P w src dst q ss opt prog icc = (Inr out, w', evs)"
    from try_body_cases[OF this] show ?thesis
      by (elim disjE conjE exE) (auto dest!: cl)
  next
    fix e w2 evs2 c
    assume tb: "try_body P w src dst q ss opt prog icc = (Inl e, w2, evs2)"
      and c: "cleanup w2 dst = (w', c)" and evs: "evs = evs2 @ c"
    from try_body_cases[OF tb] cl[OF c] evs show ?thesis
      by (elim disjE conjE exE) auto
  next
    fix e
    assume "try_body P w src dst q ss opt prog icc = (Inl e, w', evs)"
    from try_body_cases[OF this] show ?thesis
      by (elim disjE conjE exE) auto
  qed
qed

subsection \<open>Stage by stage\<close>

lemma with_block_open_fails:
  "files w src = Some data \<Longrightarrow> image_open P data = Inl e \<Longrightarrow>
     with_block P w src dst q ss opt prog icc = (Some e, w, [EvOpen src])"
  by (simp add: with_block_def)

lemma with_block_saved:
  assumes "files w src = Some data" and "image_open P data = Inr im0"
      and "prepare P im0 icc = Inr (im, ex, ic)"
      and "kw = \<lparr>kw_format = ''JPEG'', kw_quality = q, kw_subsampling = ss, kw_optimize = opt,
                  kw_progressive = prog, kw_exif = (if truthy ex then ex else None),
                  kw_icc_profile = (if truthy ic then ic else None)\<rparr>"
      and "image_save P im kw (files w dst) = (err, c)"
  shows "with_block P w src dst q ss opt prog icc =
           (err, w\<lparr>files := (files w)(dst := c)\<rparr>, [EvOpen src, EvSave dst im kw err c])"
  using assms by (simp add: with_block_def save_jpeg_def)

lemma try_body_raises:
  "with_block P w src dst q ss opt prog icc = (Some e, w1, evs) \<Longrightarrow>
     try_body P w src dst q ss opt prog icc = (Inl e, w1, evs)"
  by (simp add: try_body_def)

lemma convert_one_handler:
  assumes "with_suffix src ''.jpg'' = Inr dst" and "\<not> (path_exists w dst \<and> \<not> ov)"
      and "try_body P w src dst q ss opt prog icc = (Inl e, w1, evs)"
  shows "convert_one P w src ov q ss opt prog icc =
           (if caught e then
              (Inr (''failed'', src, exn_repr e), fst (cleanup w1 dst), evs @ snd (cleanup w1 dst))
            else (Inl e, w1, evs))"
  using assms by (auto simp: convert_one_def split: prod.splits)

lemma cleanup_result:
  assumes "cleanup w0 d = (w1, cl)"
  shows "unlink_error w1 = unlink_error w0 \<and>
         (\<not> path_exists w1 d \<or>
          (\<exists>e. unlink_error w0 d = Some e \<and> cl = [EvUnlink d (Some e)] \<and> w1 = w0))"
proof -
  from cleanup_cases[OF assms] show ?thesis
  proof (elim disjE conjE exE)
    assume "w1 = w0" "files w0 d = None"
    then show ?thesis by (simp add: path_exists_def)
  next
    fix r
    assume cl: "cl = [EvUnlink d r]" and u: "unlink w0 d = (r, w1)" and ex: "files w0 d \<noteq> None"
    from unlink_cases[OF u] ex cl show ?thesis
      by (cases r) (auto simp: path_exists_def)
  qed
qed

subsection \<open>A run on the small installation\<close>

lemma with_suffix_demo: "with_suffix ''/p/a.heic'' ''.jpg'' = Inr ''/p/a.jpg''"
  by (simp add: with_suffix_def path_name_def path_suffix_def Let_def)

lemma prepare_demo:
  "prepare demo_pil demo_image ''srgb'' = Inr (demo_image, Some ''exif'', Some ''sRGB'')"
  by (simp add: prepare_def demo_pil_def demo_image_def exif_orient_and_flatten_def
      convert_to_srgb_def)

lemma with_block_demo:
  "with_block demo_pil demo_world ''/p/a.heic'' ''/p/a.jpg'' 92 2 True True ''srgb'' =
     (None, demo_world\<lparr>files := (files demo_world)(''/p/a.jpg'' \<mapsto> ''jpeg-data'')\<rparr>,
      [EvOpen ''/p/a.heic'', EvSave ''/p/a.jpg'' demo_image demo_kwargs None (Some ''jpeg-data'')])"
proof -
  have f: "files demo_world ''/p/a.heic'' = Some ''heic-data''"
    by (simp add: demo_world_def)
  have o: "image_open demo_pil ''heic-data'' = Inr demo_image"
    by (simp add: demo_pil_def)
  have sv: "image_save demo_pil im kw old = (None, Some ''jpeg-data'')" for im kw old
    by (simp add: demo_pil_def)
  show ?thesis
    by (simp add: with_block_def f o prepare_demo save_jpeg_def sv truthy_def demo_kwargs_def)
qed

lemma demo_run:
  "convert_one demo_pil demo_world ''/p/a.heic'' False 92 2 True True ''srgb'' =
     (Inr (''converted'', ''/p/a.heic'', ''/p/a.jpg''),
      demo_world\<lparr>files := [''/p/a.jpg'' \<mapsto> ''jpeg-data'']\<rparr>,
      [EvOpen ''/p/a.heic'', EvSave ''/p/a.jpg'' demo_image demo_kwargs None (Some ''jpeg-data''),
       EvVerify ''/p/a.jpg'' True, EvUnlink ''/p/a.heic'' None])"
proof -
  have ne: "\<not> path_exists demo_world ''/p/a.jpg''"
    by (simp add: path_exists_def demo_world_def)
  have tb: "try_body demo_pil demo_world ''/p/a.heic'' ''/p/a.jpg'' 92 2 True True ''srgb'' =
     (Inr (''converted'', ''/p/a.heic'', ''/p/a.jpg''),
      demo_world\<lparr>files := [''/p/a.jpg'' \<mapsto> ''jpeg-data'']\<rparr>,
      [EvOpen ''/p/a.heic'', EvSave ''/p/a.jpg'' demo_image demo_kwargs None (Some ''jpeg-data''),
       EvVerify ''/p/a.jpg'' True, EvUnlink ''/p/a.heic'' None])"
    unfolding try_body_def with_block_demo
    by (simp add: path_exists_def st_size_def unlink_def demo_world_def fun_eq_iff)
  show ?thesis
    by (simp add: convert_one_def with_suffix_demo ne tb)
qed

lemma with_suffix_c: "with_suffix ''/p/c.heic'' ''.jpg'' = Inr ''/p/c.jpg''"
  by (simp add: with_suffix_def path_name_def path_suffix_def Let_def)

subsection \<open>Failed outcomes end in the cleanup\<close>

lemma try_body_failed:
  assumes "try_body P w src dst q ss opt prog icc = (Inr (''failed'', s, m), w2, evs)"
  shows "\<exists>w1 pre cl. unlink_error w1 = unlink_error w \<and> cleanup w1 dst = (w2, cl) \<and>
           evs = pre @ cl \<and> pre \<noteq> []"
proof -
  from try_body_cases[OF assms]
  obtain im kw c cl where
    "evs = [EvOpen src, EvSave dst im kw None c, EvVerify dst False] @ cl"
    "cleanup (w\<lparr>files := (files w)(dst := c)\<rparr>) dst = (w2, cl)"
    by auto
  moreover have "unlink_error (w\<lparr>files := (files w)(dst := c)\<rparr>) = unlink_error w" by simp
  ultimately show ?thesis by blast
qed

lemma try_body_raised:
  assumes "try_body P w src dst q ss opt prog icc = (Inl e, w2, evs)"
  shows "unlink_error w2 = unlink_error w \<and> evs \<noteq> []"
  using try_body_cases[OF assms] by auto

lemma failed_ends_in_cleanup:
  assumes run: "convert_one P w src ov q ss opt prog icc = (Inr (''failed'', s, m), w', evs)"
      and dst: "with_suffix src ''.jpg'' = Inr dst"
  shows "\<exists>w1 pre cl. unlink_error w1 = unlink_error w \<and> cleanup w1 dst = (w', cl) \<and>
           evs = pre @ cl \<and> pre \<noteq> []"
proof -
  from convert_one_cases[OF run dst]
  consider out where "try_body P w src dst q ss opt prog icc = (Inr out, w', evs)"
      "Inr (''failed'', s, m) = (Inr out :: exn + outcome)"
    | e w2 evs2 cl where "try_body P w src dst q ss opt prog icc = (Inl e, w2, evs2)"
      "cleanup w2 dst = (w', cl)" "evs = evs2 @ cl"
    by auto
  then show ?thesis
  proof cases
    case 1
    then have "try_body P w src dst q ss opt prog icc = (Inr (''failed'', s, m), w', evs)"
      by simp
    from try_body_failed[OF this] show ?thesis .
  next
    case 2
    from try_body_raised[OF 2(1)] 2(2,3) show ?thesis by blast
  qed
qed

subsection \<open>Runs that fail\<close>

lemma corrupt_run:
  "convert_one demo_pil corrupt_world ''/p/c.heic'' True 92 2 True True ''srgb'' =
     (Inr (''failed'', ''/p/c.heic'', exn_repr cannot_identify),
      corrupt_world\<lparr>files := (files corrupt_world)(''/p/c.jpg'' := None)\<rparr>,
      [EvOpen ''/p/c.heic'', EvUnlink ''/p/c.jpg'' None])"
proof -
  have f: "files corrupt_world ''/p/c.heic'' = Some ''corrupt''"
    by (simp add: corrupt_world_def)
  have o: "image_open demo_pil ''corrupt'' = Inl cannot_identify"
    by (simp add: demo_pil_def)
  have c: "caught cannot_identify"
    by (simp add: caught_def cannot_identify_def)
  have cl: "cleanup corrupt_world ''/p/c.jpg'' =
      (corrupt_world\<lparr>files := (files corrupt_world)(''/p/c.jpg'' := None)\<rparr>,
       [EvUnlink ''/p/c.jpg'' None])"
    by (simp add: cleanup_def path_exists_def unlink_def corrupt_world_def)
  from convert_one_handler[OF with_suffix_c _ try_body_raises[OF with_block_open_fails[OF f o]],
      of True 92 2 True True "''srgb''"] c cl
  show ?thesis by simp
qed

lemma readonly_corrupt_run:
  "convert_one demo_pil readonly_corrupt_world ''/p/c.heic'' True 92 2 True True ''srgb'' =
     (Inr (''failed'', ''/p/c.heic'', exn_repr cannot_identify), readonly_corrupt_world,
      [EvOpen ''/p/c.heic'', EvUnlink ''/p/c.jpg'' (Some permission_denied)])"
proof -
  have f: "files readonly_corrupt_world ''/p/c.heic'' = Some ''corrupt''"
    by (simp add: readonly_corrupt_world_def)
  have o: "image_open demo_pil ''corrupt'' = Inl cannot_identify"
    by (simp add: demo_pil_def)
  have c: "caught cannot_identify"
    by (simp add: caught_def cannot_identify_def)
  have cl: "cleanup readonly_corrupt_world ''/p/c.jpg'' =
      (readonly_corrupt_world, [EvUnlink ''/p/c.jpg'' (Some permission_denied)])"
    by (simp add: cleanup_def path_exists_def unlink_def readonly_corrupt_world_def)
  from convert_one_handler[OF with_suffix_c _ try_body_raises[OF with_block_open_fails[OF f o]],
      of True 92 2 True True "''srgb''"] c cl
  show ?thesis by simp
qed

lemma full_disk_run:
  "convert_one full_disk_pil readonly_world ''/p/a.heic'' True 92 2 True True ''srgb'' =
     (Inr (''failed'', ''/p/a.heic'', exn_repr disk_full),
      readonly_world\<lparr>files := (files readonly_world)(''/p/a.jpg'' \<mapsto> ''partial'')\<rparr>,
      [EvOpen ''/p/a.heic'',
       EvSave ''/p/a.jpg'' demo_image demo_kwargs (Some disk_full) (Some ''partial''),
       EvUnlink ''/p/a.jpg'' (Some permission_denied)])"
proof -
  have f: "files readonly_world ''/p/a.heic'' = Some ''heic-data''"
    by (simp add: readonly_world_def)
  have o: "image_open full_disk_pil ''heic-data'' = Inr demo_image"
    by (simp add: full_disk_pil_def demo_pil_def)
  have p: "prepare full_disk_pil demo_image ''srgb'' = Inr (demo_image, Some ''exif'', Some ''sRGB'')"
    by (simp add: prepare_def full_disk_pil_def demo_pil_def demo_image_def
        exif_orient_and_flatten_def convert_to_srgb_def)
  have kw: "demo_kwargs = \<lparr>kw_format = ''JPEG'', kw_quality = 92, kw_subsampling = 2,
      kw_optimize = True, kw_progressive = True,
      kw_exif = (if truthy (Some ''exif'') then Some ''exif'' else None),
      kw_icc_profile = (if truthy (Some ''sRGB'') then Some ''sRGB'' else None)\<rparr>"
    by (simp add: demo_kwargs_def truthy_def)
  have sv: "image_save full_disk_pil demo_image demo_kwargs (files readonly_world ''/p/a.jpg'') =
      (Some disk_full, Some ''partial'')"
    by (simp add: full_disk_pil_def)
  have c: "caught disk_full"
    by (simp add: caught_def disk_full_def)
  have cl: "cleanup (readonly_world\<lparr>files := (files readonly_world)(''/p/a.jpg'' \<mapsto> ''partial'')\<rparr>)
        ''/p/a.jpg'' =
      (readonly_world\<lparr>files := (files readonly_world)(''/p/a.jpg'' \<mapsto> ''partial'')\<rparr>,
       [EvUnlink ''/p/a.jpg'' (Some permission_denied)])"
    by (simp add: cleanup_def path_exists_def unlink_def readonly_world_def)
  from convert_one_handler[OF with_suffix_demo _
      try_body_raises[OF with_block_saved[OF f o p kw sv]], of True] c cl
  show ?thesis by simp
qed


subsection \<open>Converted outcomes\<close>

lemma with_block_no_unlink:
  "with_block P w src dst q ss opt prog icc = (err, w1, evs) \<Longrightarrow> filter is_unlink evs = []"
  by (auto dest!: with_block_cases)

lemma try_body_verified:
  assumes "with_block P w src dst q ss opt prog icc = (None, w1, evs1)"
      and "path_exists w1 dst" and "0 < st_size w1 dst"
  shows "try_body P w src dst q ss opt prog icc =
           (case unlink w1 src of
              (Some del_err, w2) \<Rightarrow>
                (Inr (''converted'', src,
                      dst @ '' (warning: could not delete source: '' @ exn_str del_err @ '')''),
                 w2, evs1 @ [EvVerify dst True, EvUnlink src (Some del_err)])
            | (None, w2) \<Rightarrow>
                (Inr (''converted'', src, dst), w2,
                 evs1 @ [EvVerify dst True, EvUnlink src None]))"
  using assms by (simp add: try_body_def)

lemma try_body_converted:
  assumes "try_body P w src dst q ss opt prog icc = (Inr (''converted'', s, m), w2, evs)"
  shows "\<exists>w1 evs1. with_block P w src dst q ss opt prog icc = (None, w1, evs1) \<and>
           path_exists w1 dst \<and> 0 < st_size w1 dst \<and>
           (fst (unlink w1 src) = None \<and> m = dst \<or>
            (\<exists>e. fst (unlink w1 src) = Some e \<and>
                 m = dst @ '' (warning: could not delete source: '' @ exn_str e @ '')''))"
proof -
  obtain err w1 evs1 where wb: "with_block P w src dst q ss opt prog icc = (err, w1, evs1)"
    by (cases "with_block P w src dst q ss opt prog icc") auto
  show ?thesis
  proof (cases err)
    case (Some e)
    with wb assms show ?thesis by (simp add: try_body_def)
  next
    case None
    show ?thesis
    proof (cases "path_exists w1 dst \<and> 0 < st_size w1 dst")
      case True
      obtain r w3 where u: "unlink w1 src = (r, w3)" by (cases "unlink w1 src") auto
      from try_body_verified[of P w src dst q ss opt prog icc w1 evs1] wb None True u assms
      have "r = None \<and> m = dst \<or>
            (\<exists>e. r = Some e \<and> m = dst @ '' (warning: could not delete source: '' @ exn_str e @ '')'')"
        by (cases r) auto
      with wb None True u show ?thesis by auto
    next
      case False
      with wb None assms show ?thesis
        by (auto simp: try_body_def split: prod.splits)
    qed
  qed
qed

lemma readonly_with_block:
  "with_block demo_pil readonly_world ''/p/a.heic'' ''/p/a.jpg'' 92 2 True True ''srgb'' =
     (None, readonly_world\<lparr>files := (files readonly_world)(''/p/a.jpg'' \<mapsto> ''jpeg-data'')\<rparr>,
      [EvOpen ''/p/a.heic'', EvSave ''/p/a.jpg'' demo_image demo_kwargs None (Some ''jpeg-data'')])"
proof -
  have f: "files readonly_world ''/p/a.heic'' = Some ''heic-data''"
    by (simp add: readonly_world_def)
  have o: "image_open demo_pil ''heic-data'' = Inr demo_image"
    by (simp add: demo_pil_def)
  have kw: "demo_kwargs = \<lparr>kw_format = ''JPEG'', kw_quality = 92, kw_subsampling = 2,
      kw_optimize = True, kw_progressive = True,
      kw_exif = (if truthy (Some ''exif'') then Some ''exif'' else None),
      kw_icc_profile = (if truthy (Some ''sRGB'') then Some ''sRGB'' else None)\<rparr>"
    by (simp add: demo_kwargs_def truthy_def)
  have sv: "image_save demo_pil demo_image demo_kwargs (files readonly_world ''/p/a.jpg'') =
      (None, Some ''jpeg-data'')"
    by (simp add: demo_pil_def)
  from with_block_saved[OF f o prepare_demo kw sv] show ?thesis .
qed

lemma convert_to_srgb_fallback:
  assumes "transform_fails P im icc" and "icc \<noteq> []"
  shows "\<exists>im'. convert_to_srgb P im (Some icc) = (im', Some icc) \<and>
           (im' = im \<or> image_convert P im ''RGB'' = Inr im')"
  using assms
  by (auto simp: convert_to_srgb_def transform_fails_def split: option.splits sum.splits if_splits)

subsection \<open>Discovery on the two trees\<close>

lemma name_mixed: "path_name ''/d/IMG_1.HeiC'' = ''IMG_1.HeiC''"
  by (simp add: path_name_def)

lemma scan_mixed_dir: "scan_root True mixed_tree ''/d'' = []"
  by (simp add: scan_root_def mixed_tree_def rglob_def pattern_matches_def HEIF_EXTS_def
      name_mixed ends_with_def upper_def upper_char_def)

lemma scan_mixed_file: "scan_root True mixed_tree ''/d/IMG_1.HeiC'' = [''/d/IMG_1.HeiC'']"
  by (simp add: scan_root_def mixed_tree_def HEIF_EXTS_def path_suffix_def name_mixed Let_def
      lower_def lower_char_def)





subsection \<open>The counters of the loop\<close>






lemma drained_prefix: "length (drained completed) \<le> length completed"
  by (induction completed) auto

subsection \<open>The driver on the small installation\<close>





subsection \<open>Completion order and the loop\<close>











subsection \<open>Exceptions stage by stage\<close>










subsection \<open>Quality clamp\<close>

text \<open>
  C10. Whatever integer the command line gives as quality, every call handed to the
  pool carries \<open>max 1 (min 100 q)\<close>, which lies between 1 and 100, and the worker run
  for that call receives exactly this value.
\<close>

theorem quality_clamped:
  "c \<in> set (submit_all a heif_files) \<Longrightarrow>
     c_quality c = max 1 (min 100 (arg_quality a)) \<and> 1 \<le> c_quality c \<and> c_quality c \<le> 100 \<and>
     run_call P w c =
       convert_one P w (c_src c) (arg_overwrite a) (max 1 (min 100 (arg_quality a)))
         DEFAULT_SUBSAMPLING DEFAULT_OPTIMIZE DEFAULT_PROGRESSIVE (arg_icc a)"
  by (auto simp: submit_all_def run_call_def)

theorem quality_clamped_witness:
  "hd (submit_all demo_args [''/p/a.heic'']) \<in> set (submit_all demo_args [''/p/a.heic'']) \<and>
   c_quality (hd (submit_all demo_args [''/p/a.heic''])) = 100"
  using quality_clamped [of "hd (submit_all demo_args [''/p/a.heic''])" demo_args
      "[''/p/a.heic'']" demo_pil demo_world]
  by (simp add: submit_all_def demo_args_def)

subsection \<open>Verify, then delete\<close>

text \<open>
  C1. The source is never deleted unless a destination of non-zero size exists at that
  moment. Take any run of the worker on a source item and any event of the run at which
  the source stops existing. Then that event is the worker's own \<^verbatim>\<open>src_path.unlink()\<close>,
  it is the last event of the run, and what came before it is exactly: the source
  opened, the save to the destination finished without an exception, the verification
  answered true. On the file system as it stands at that moment the destination exists
  and its size is greater than zero.
\<close>

theorem source_deleted_only_after_verified:
  assumes item: "is_source_item src"
      and run: "convert_one P w src overwrite q ss opt prog icc = (res, w', evs)"
      and split: "evs = pre @ ev # post"
      and before: "files (replay w pre) src \<noteq> None"
      and after: "files (apply_event (replay w pre) ev) src = None"
  shows "\<exists>dst im kw b.
           with_suffix src ''.jpg'' = Inr dst \<and>
           pre = [EvOpen src, EvSave dst im kw None (Some b), EvVerify dst True] \<and>
           ev = EvUnlink src None \<and> post = [] \<and>
           path_exists (replay w pre) dst \<and> 0 < st_size (replay w pre) dst"
proof -
  from run split obtain dst where dst: "with_suffix src ''.jpg'' = Inr dst"
    by (cases "with_suffix src ''.jpg''") (auto simp: convert_one_def)
  from source_item_dst_differs[OF item dst] have ne: "dst \<noteq> src" .
  from deleting_event[OF before after]
  have ev: "ev = EvUnlink src None \<or> (\<exists>im kw e. ev = EvSave src im kw e None)" .
  from split have mem: "ev \<in> set evs" by simp
  from convert_one_trace[OF run dst] show ?thesis
  proof
    assume "\<exists>im kw b r. b \<noteq> [] \<and>
      evs = [EvOpen src, EvSave dst im kw None (Some b), EvVerify dst True, EvUnlink src r]"
    then obtain im kw b r where b: "b \<noteq> []"
      and evs: "evs = [EvOpen src, EvSave dst im kw None (Some b), EvVerify dst True, EvUnlink src r]"
      by blast
    from evs split
    have eq: "pre @ ev # post =
        [EvOpen src, EvSave dst im kw None (Some b), EvVerify dst True, EvUnlink src r]"
      by simp
    from ev ne have "ev \<noteq> EvOpen src" "ev \<noteq> EvSave dst im kw None (Some b)"
      "ev \<noteq> EvVerify dst True"
      by auto
    from split_at_fourth[OF eq this] ev
    have "pre = [EvOpen src, EvSave dst im kw None (Some b), EvVerify dst True] \<and>
          ev = EvUnlink src None \<and> post = []"
      by auto
    moreover have "files (replay w [EvOpen src, EvSave dst im kw None (Some b), EvVerify dst True]) dst
                     = Some b"
      by (simp add: replay_def)
    ultimately show ?thesis using dst b by (auto simp: path_exists_def st_size_def)
  next
    assume "\<forall>ev \<in> set evs. ev = EvOpen src \<or> (\<exists>im kw e c. ev = EvSave dst im kw e c) \<or>
            ev = EvVerify dst False \<or> (\<exists>r. ev = EvUnlink dst r)"
    with mem ev ne show ?thesis by auto
  qed
qed

theorem source_deleted_only_after_verified_witness:
  "is_source_item ''/p/a.heic'' \<and>
   files (replay demo_world []) ''/p/a.heic'' \<noteq> None \<and>
   path_exists (replay demo_world
      [EvOpen ''/p/a.heic'', EvSave ''/p/a.jpg'' demo_image demo_kwargs None (Some ''jpeg-data''),
       EvVerify ''/p/a.jpg'' True]) ''/p/a.jpg''"
proof -
  have item: "is_source_item ''/p/a.heic''"
    by (simp add: is_source_item_def HEIF_EXTS_def ends_with_def path_name_def lower_def
        lower_char_def)
  let ?pre = "[EvOpen ''/p/a.heic'',
               EvSave ''/p/a.jpg'' demo_image demo_kwargs None (Some ''jpeg-data''),
               EvVerify ''/p/a.jpg'' True]"
  have before: "files (replay demo_world ?pre) ''/p/a.heic'' \<noteq> None"
    by (simp add: replay_def demo_world_def)
  have after: "files (apply_event (replay demo_world ?pre) (EvUnlink ''/p/a.heic'' None))
                 ''/p/a.heic'' = None"
    by (simp add: replay_def)
  have split: "[EvOpen ''/p/a.heic'',
       EvSave ''/p/a.jpg'' demo_image demo_kwargs None (Some ''jpeg-data''),
       EvVerify ''/p/a.jpg'' True, EvUnlink ''/p/a.heic'' None] =
     ?pre @ EvUnlink ''/p/a.heic'' None # []" by simp
  from source_deleted_only_after_verified [OF item demo_run split before after]
  have "path_exists (replay demo_world ?pre) ''/p/a.jpg''"
    by (simp add: with_suffix_demo)
  moreover have "files (replay demo_world []) ''/p/a.heic'' \<noteq> None"
    by (simp add: replay_def demo_world_def)
  ultimately show ?thesis using item by simp
qed


subsection \<open>Skipping\<close>

text \<open>
  C4. When the destination already exists and \<^verbatim>\<open>overwrite\<close> is false, the worker
  returns \<^verbatim>\<open>skipped\<close> with the reason \<^verbatim>\<open>destination exists\<close>. The file system
  afterwards is the one before, so source and destination hold the same bytes; the run
  has no event, so the source was not opened; the answer is the same for every image
  library, so nothing was decoded. Running again on the result gives the same answer.
\<close>

theorem skip_leaves_everything:
  assumes "with_suffix src ''.jpg'' = Inr dst" and "path_exists w dst"
  shows "convert_one P w src False q ss opt prog icc =
           (Inr (''skipped'', src, ''destination exists''), w, []) \<and>
         convert_one P (fst (snd (convert_one P w src False q ss opt prog icc))) src False
             q ss opt prog icc =
           convert_one P w src False q ss opt prog icc"
  using assms by (simp add: convert_one_def)

theorem skip_leaves_everything_witness:
  "path_exists existing_world ''/p/a.jpg'' \<and>
   convert_one demo_pil existing_world ''/p/a.heic'' False 92 2 True True ''srgb'' =
     (Inr (''skipped'', ''/p/a.heic'', ''destination exists''), existing_world, [])"
proof -
  have ex: "path_exists existing_world ''/p/a.jpg''"
    by (simp add: path_exists_def existing_world_def)
  from skip_leaves_everything [OF with_suffix_demo ex, of demo_pil 92 2 True True "''srgb''"] ex
  show ?thesis by simp
qed

subsection \<open>Failure and the destination\<close>

text \<open>
  C5, as the code has it. The claim that the destination never exists after a
  \<^verbatim>\<open>failed\<close> outcome does not hold: the cleanup is
  \<^verbatim>\<open>try: if dst_path.exists(): dst_path.unlink() except Exception: pass\<close>, so an
  unlink the operating system refuses is swallowed and the file stays. What holds: after
  a \<^verbatim>\<open>failed\<close> outcome the destination exists only if the cleanup, as the last
  step of the run, tried to remove it and the unlink raised.
\<close>

theorem failed_destination_survives_only_refused_unlink:
  assumes run: "convert_one P w src overwrite q ss opt prog icc = (Inr (''failed'', s, m), w', evs)"
      and dst: "with_suffix src ''.jpg'' = Inr dst"
  shows "\<not> path_exists w' dst \<or>
         (\<exists>e. unlink_error w dst = Some e \<and> evs \<noteq> [] \<and> last evs = EvUnlink dst (Some e))"
proof -
  from failed_ends_in_cleanup[OF run dst] obtain w1 pre cl where
    ue: "unlink_error w1 = unlink_error w" and cl: "cleanup w1 dst = (w', cl)"
    and evs: "evs = pre @ cl"
    by blast
  from cleanup_result[OF cl] ue evs show ?thesis by auto
qed

theorem failed_destination_survives_only_refused_unlink_witness:
  "\<not> path_exists (corrupt_world\<lparr>files := (files corrupt_world)(''/p/c.jpg'' := None)\<rparr>) ''/p/c.jpg''"
  using failed_destination_survives_only_refused_unlink [OF corrupt_run with_suffix_c]
  by (simp add: corrupt_world_def)

text \<open>
  The claim C5 fails on a read-only folder with \<^verbatim>\<open>overwrite\<close>: the encoder opens the
  existing JPEG, writes a part and raises \<^verbatim>\<open>OSError\<close>; the cleanup cannot remove the
  file; the worker returns \<^verbatim>\<open>failed\<close> and the partial file is still there.
\<close>

theorem failed_with_partial_destination:
  "fst (convert_one full_disk_pil readonly_world ''/p/a.heic'' True 92 2 True True ''srgb'') =
     Inr (''failed'', ''/p/a.heic'', exn_repr disk_full) \<and>
   files (fst (snd (convert_one full_disk_pil readonly_world ''/p/a.heic'' True 92 2 True True
      ''srgb''))) ''/p/a.jpg'' = Some ''partial''"
  by (simp add: full_disk_run)

text \<open>
  C9, as the code has it. With \<^verbatim>\<open>overwrite\<close> true, a \<^verbatim>\<open>failed\<close> outcome and a
  destination that existed before the call, nothing exists at the destination
  afterwards, whoever wrote the file, provided the operating system lets it be removed.
\<close>

theorem overwrite_failure_removes_existing_destination:
  assumes run: "convert_one P w src True q ss opt prog icc = (Inr (''failed'', s, m), w', evs)"
      and dst: "with_suffix src ''.jpg'' = Inr dst"
      and old: "path_exists w dst"
      and ok: "unlink_error w dst = None"
  shows "\<not> path_exists w' dst"
proof -
  from failed_ends_in_cleanup[OF run dst] obtain w1 cl where
    ue: "unlink_error w1 = unlink_error w" and cl: "cleanup w1 dst = (w', cl)"
    by blast
  from cleanup_result[OF cl] ue ok show ?thesis by auto
qed

theorem overwrite_failure_removes_existing_destination_witness:
  "path_exists corrupt_world ''/p/c.jpg'' \<and> unlink_error corrupt_world ''/p/c.jpg'' = None \<and>
   files (corrupt_world\<lparr>files := (files corrupt_world)(''/p/c.jpg'' := None)\<rparr>) ''/p/c.jpg'' = None"
proof -
  have old: "path_exists corrupt_world ''/p/c.jpg''"
    by (simp add: path_exists_def corrupt_world_def)
  have ok: "unlink_error corrupt_world ''/p/c.jpg'' = None"
    by (simp add: corrupt_world_def)
  from overwrite_failure_removes_existing_destination [OF corrupt_run with_suffix_c old ok] old ok
  show ?thesis by (simp add: path_exists_def)
qed

text \<open>
  The claim C9 without that proviso fails: in a read-only folder a corrupt source gives
  \<^verbatim>\<open>failed\<close>, the cleanup's unlink raises and is swallowed, and the JPEG that existed
  before the call is left as it was.
\<close>

theorem existing_destination_survives_refused_unlink:
  "fst (convert_one demo_pil readonly_corrupt_world ''/p/c.heic'' True 92 2 True True ''srgb'') =
     Inr (''failed'', ''/p/c.heic'', exn_repr cannot_identify) \<and>
   files readonly_corrupt_world ''/p/c.jpg'' = Some ''old-jpeg'' \<and>
   files (fst (snd (convert_one demo_pil readonly_corrupt_world ''/p/c.heic'' True 92 2 True True
      ''srgb''))) ''/p/c.jpg'' = Some ''old-jpeg''"
  by (simp add: readonly_corrupt_run) (simp add: readonly_corrupt_world_def)

subsection \<open>Exceptions at the worker boundary\<close>




subsection \<open>A delete that fails\<close>

text \<open>
  C7. When the encode finished without an exception, the verification succeeded and
  \<^verbatim>\<open>src_path.unlink()\<close> raises, the worker returns \<^verbatim>\<open>converted\<close> with the
  destination followed by the warning that the source could not be deleted, and the run
  holds exactly one call of unlink: the delete is not tried again. Conversely every
  \<^verbatim>\<open>converted\<close> outcome comes from a run in which opening, preparing and saving raised
  nothing and the verification succeeded, and its message is the plain destination
  unless that one unlink raised: among the errors of the worker's stages (decode,
  encode, verification, delete) the failed delete is the only one a converted item can
  have met. (A profile transform that fails inside \<^verbatim>\<open>_convert_to_srgb\<close> is absorbed
  there by the fallback and is no error of a stage.)
\<close>

theorem converted_with_warning_when_delete_fails:
  assumes run: "convert_one P w src overwrite q ss opt prog icc = (res, w', evs)"
      and dst: "with_suffix src ''.jpg'' = Inr dst"
  shows "(\<forall>w1 evs1 del_err w2.
            \<not> (path_exists w dst \<and> \<not> overwrite) \<and>
            with_block P w src dst q ss opt prog icc = (None, w1, evs1) \<and>
            path_exists w1 dst \<and> 0 < st_size w1 dst \<and>
            unlink w1 src = (Some del_err, w2) \<longrightarrow>
            res = Inr (''converted'', src,
                       dst @ '' (warning: could not delete source: '' @ exn_str del_err @ '')'') \<and>
            filter is_unlink evs = [EvUnlink src (Some del_err)]) \<and>
         (\<forall>s m. res = Inr (''converted'', s, m) \<longrightarrow>
            (\<exists>w1 evs1. with_block P w src dst q ss opt prog icc = (None, w1, evs1) \<and>
               path_exists w1 dst \<and> 0 < st_size w1 dst \<and>
               (fst (unlink w1 src) = None \<and> m = dst \<or>
                (\<exists>e. fst (unlink w1 src) = Some e \<and>
                   m = dst @ '' (warning: could not delete source: '' @ exn_str e @ '')''))))"
proof (intro conjI allI impI)
  fix w1 evs1 del_err w2
  assume a: "\<not> (path_exists w dst \<and> \<not> overwrite) \<and>
            with_block P w src dst q ss opt prog icc = (None, w1, evs1) \<and>
            path_exists w1 dst \<and> 0 < st_size w1 dst \<and>
            unlink w1 src = (Some del_err, w2)"
  then have ns: "\<not> (path_exists w dst \<and> \<not> overwrite)"
    and wb: "with_block P w src dst q ss opt prog icc = (None, w1, evs1)"
    and ex: "path_exists w1 dst" and sz: "0 < st_size w1 dst"
    and u: "unlink w1 src = (Some del_err, w2)"
    by simp_all
  from try_body_verified[OF wb ex sz] u
  have tb: "try_body P w src dst q ss opt prog icc =
      (Inr (''converted'', src,
            dst @ '' (warning: could not delete source: '' @ exn_str del_err @ '')''),
       w2, evs1 @ [EvVerify dst True, EvUnlink src (Some del_err)])"
    by simp
  from run dst ns tb
  have r: "res = Inr (''converted'', src,
                   dst @ '' (warning: could not delete source: '' @ exn_str del_err @ '')'')"
    and e: "evs = evs1 @ [EvVerify dst True, EvUnlink src (Some del_err)]"
    by (auto simp: convert_one_def)
  from e with_block_no_unlink[OF wb]
  show "filter is_unlink evs = [EvUnlink src (Some del_err)]" by simp
  from r show "res = Inr (''converted'', src,
                 dst @ '' (warning: could not delete source: '' @ exn_str del_err @ '')'')" .
next
  fix s m
  assume c: "res = Inr (''converted'', s, m)"
  from convert_one_cases[OF run dst] c
  have "try_body P w src dst q ss opt prog icc = (Inr (''converted'', s, m), w', evs)"
    by auto
  from try_body_converted[OF this]
  show "\<exists>w1 evs1. with_block P w src dst q ss opt prog icc = (None, w1, evs1) \<and>
               path_exists w1 dst \<and> 0 < st_size w1 dst \<and>
               (fst (unlink w1 src) = None \<and> m = dst \<or>
                (\<exists>e. fst (unlink w1 src) = Some e \<and>
                   m = dst @ '' (warning: could not delete source: '' @ exn_str e @ '')''))" .
qed

theorem converted_with_warning_when_delete_fails_witness:
  "\<not> (path_exists readonly_world ''/p/a.jpg'' \<and> \<not> True) \<and>
   fst (convert_one demo_pil readonly_world ''/p/a.heic'' True 92 2 True True ''srgb'') =
     Inr (''converted'', ''/p/a.heic'',
          ''/p/a.jpg (warning: could not delete source: [Errno 13] Permission denied)'')"
proof -
  let ?w1 = "readonly_world\<lparr>files := (files readonly_world)(''/p/a.jpg'' \<mapsto> ''jpeg-data'')\<rparr>"
  let ?run = "convert_one demo_pil readonly_world ''/p/a.heic'' True 92 2 True True ''srgb''"
  have run: "?run = (fst ?run, fst (snd ?run), snd (snd ?run))" by simp
  have ex: "path_exists ?w1 ''/p/a.jpg''" by (simp add: path_exists_def)
  have sz: "0 < st_size ?w1 ''/p/a.jpg''" by (simp add: st_size_def)
  have u: "unlink ?w1 ''/p/a.heic'' = (Some permission_denied, ?w1)"
    by (simp add: unlink_def readonly_world_def)
  from converted_with_warning_when_delete_fails [OF run with_suffix_demo]
    readonly_with_block ex sz u
  have "fst ?run = Inr (''converted'', ''/p/a.heic'',
      ''/p/a.jpg'' @ '' (warning: could not delete source: '' @ exn_str permission_denied @ '')'')"
    by blast
  then show ?thesis by (simp add: permission_denied_def)
qed

subsection \<open>Profile fallback\<close>

text \<open>
  C6. Mode \<^verbatim>\<open>srgb\<close>, a source profile present and not empty, every stage before colour
  management succeeding, and the transform to sRGB failing (with whatever exception).
  Then the worker still reaches the encoder: the image saved is the flattened image (at
  most converted to RGB), and the \<^verbatim>\<open>icc_profile\<close> it is saved with is the source
  profile, byte for byte. If the save raises nothing and leaves a non-empty destination,
  the outcome is \<^verbatim>\<open>converted\<close>; and if the outcome is \<^verbatim>\<open>failed\<close>, the cause is the
  save or the verification, never the profile.
\<close>

theorem profile_transform_failure_keeps_source_profile:
  assumes dst: "with_suffix src ''.jpg'' = Inr dst"
      and noskip: "\<not> (path_exists w dst \<and> \<not> overwrite)"
      and src: "files w src = Some data"
      and opn: "image_open P data = Inr im0"
      and tr: "exif_transpose P im0 = Inr im1"
      and ex: "getexif_tobytes P im1 = Inr exif_bytes"
      and fl: "exif_orient_and_flatten P im1 = Inr im2"
      and icc: "info_icc_profile im1 = Some icc" "icc \<noteq> []"
      and fails: "transform_fails P im2 icc"
      and run: "convert_one P w src overwrite q ss opt prog ''srgb'' = (res, w', evs)"
  shows "\<exists>im kw err c.
           (im = im2 \<or> image_convert P im2 ''RGB'' = Inr im) \<and>
           kw_icc_profile kw = Some icc \<and>
           image_save P im kw (files w dst) = (err, c) \<and>
           take 2 evs = [EvOpen src, EvSave dst im kw err c] \<and>
           (err = None \<and> c \<noteq> None \<and> c \<noteq> Some [] \<longrightarrow> (\<exists>m. res = Inr (''converted'', src, m))) \<and>
           (\<forall>m. res = Inr (''failed'', src, m) \<longrightarrow>
              (\<exists>e. err = Some e \<and> m = exn_repr e) \<or>
              (err = None \<and> (c = None \<or> c = Some []) \<and> m = ''empty or missing output''))"
proof -
  from convert_to_srgb_fallback[OF fails icc(2)] obtain im where
    cs: "convert_to_srgb P im2 (Some icc) = (im, Some icc)"
    and im: "im = im2 \<or> image_convert P im2 ''RGB'' = Inr im"
    by blast
  define ex' where "ex' = (if exif_bytes \<noteq> [] then Some exif_bytes else None)"
  have prep: "prepare P im0 ''srgb'' = Inr (im, ex', Some icc)"
    by (simp add: prepare_def tr ex fl icc cs ex'_def)
  define kw where "kw = \<lparr>kw_format = ''JPEG'', kw_quality = q, kw_subsampling = ss,
      kw_optimize = opt, kw_progressive = prog, kw_exif = (if truthy ex' then ex' else None),
      kw_icc_profile = (if truthy (Some icc) then Some icc else None)\<rparr>"
  obtain err c where sv: "image_save P im kw (files w dst) = (err, c)"
    by (cases "image_save P im kw (files w dst)") auto
  have kwicc: "kw_icc_profile kw = Some icc"
    using icc(2) by (simp add: kw_def truthy_def)
  note wb = with_block_saved[OF src opn prep kw_def sv]
  let ?w1 = "w\<lparr>files := (files w)(dst := c)\<rparr>"
  let ?evs1 = "[EvOpen src, EvSave dst im kw err c]"
  have ver: "path_exists ?w1 dst \<and> 0 < st_size ?w1 dst \<longleftrightarrow> c \<noteq> None \<and> c \<noteq> Some []"
    by (cases c) (auto simp: path_exists_def st_size_def)
  have main: "take 2 evs = ?evs1 \<and>
      (err = None \<and> c \<noteq> None \<and> c \<noteq> Some [] \<longrightarrow> (\<exists>m. res = Inr (''converted'', src, m))) \<and>
      (\<forall>m. res = Inr (''failed'', src, m) \<longrightarrow>
          (\<exists>e. err = Some e \<and> m = exn_repr e) \<or>
          (err = None \<and> (c = None \<or> c = Some []) \<and> m = ''empty or missing output''))"
  proof (cases err)
    case (Some e)
    with wb have tb: "try_body P w src dst q ss opt prog ''srgb'' = (Inl e, ?w1, ?evs1)"
      by (simp add: try_body_raises)
    from convert_one_handler[OF dst noskip tb] run Some show ?thesis
      by (auto split: if_splits)
  next
    case None
    show ?thesis
    proof (cases "c \<noteq> None \<and> c \<noteq> Some []")
      case True
      with ver have v: "path_exists ?w1 dst" "0 < st_size ?w1 dst" by simp_all
      from wb None have wb': "with_block P w src dst q ss opt prog ''srgb'' = (None, ?w1, ?evs1)"
        by simp
      from try_body_verified[OF wb' v] run dst noskip None True show ?thesis
        by (auto simp: convert_one_def split: prod.splits option.splits)
    next
      case False
      with ver have nv: "\<not> (path_exists ?w1 dst \<and> 0 < st_size ?w1 dst)" by simp
      from wb None nv run dst noskip False show ?thesis
        by (auto simp: convert_one_def try_body_def split: prod.splits)
    qed
  qed
  show ?thesis
  proof (intro exI conjI)
    show "im = im2 \<or> image_convert P im2 ''RGB'' = Inr im" by (rule im)
    show "kw_icc_profile kw = Some icc" by (rule kwicc)
    show "image_save P im kw (files w dst) = (err, c)" by (rule sv)
    show "take 2 evs = [EvOpen src, EvSave dst im kw err c]" using main by simp
    show "err = None \<and> c \<noteq> None \<and> c \<noteq> Some [] \<longrightarrow> (\<exists>m. res = Inr (''converted'', src, m))"
      using main by simp
    show "\<forall>m. res = Inr (''failed'', src, m) \<longrightarrow>
          (\<exists>e. err = Some e \<and> m = exn_repr e) \<or>
          (err = None \<and> (c = None \<or> c = Some []) \<and> m = ''empty or missing output'')"
      using main by simp
  qed
qed

theorem profile_transform_failure_keeps_source_profile_witness:
  "transform_fails bad_profile_pil demo_image ''profile-X'' \<and>
   (\<exists>m. fst (convert_one bad_profile_pil demo_world ''/p/a.heic'' False 92 2 True True ''srgb'') =
      Inr (''converted'', ''/p/a.heic'', m))"
proof -
  let ?run = "convert_one bad_profile_pil demo_world ''/p/a.heic'' False 92 2 True True ''srgb''"
  have run: "?run = (fst ?run, fst (snd ?run), snd (snd ?run))" by simp
  have ns: "\<not> (path_exists demo_world ''/p/a.jpg'' \<and> \<not> False)"
    by (simp add: path_exists_def demo_world_def)
  have f: "files demo_world ''/p/a.heic'' = Some ''heic-data''"
    by (simp add: demo_world_def)
  have o: "image_open bad_profile_pil ''heic-data'' = Inr demo_image"
    by (simp add: bad_profile_pil_def demo_pil_def)
  have t: "exif_transpose bad_profile_pil demo_image = Inr demo_image"
    by (simp add: bad_profile_pil_def demo_pil_def)
  have g: "getexif_tobytes bad_profile_pil demo_image = Inr ''exif''"
    by (simp add: bad_profile_pil_def demo_pil_def)
  have fl: "exif_orient_and_flatten bad_profile_pil demo_image = Inr demo_image"
    by (simp add: exif_orient_and_flatten_def t) (simp add: demo_image_def)
  have i: "info_icc_profile demo_image = Some ''profile-X''"
    by (simp add: demo_image_def)
  have n: "''profile-X'' \<noteq> []" by simp
  have tf: "transform_fails bad_profile_pil demo_image ''profile-X''"
    by (simp add: transform_fails_def bad_profile_pil_def)
  have sv: "image_save bad_profile_pil im kw old = (None, Some ''jpeg-data'')" for im kw old
    by (simp add: bad_profile_pil_def demo_pil_def)
  from profile_transform_failure_keeps_source_profile
    [OF with_suffix_demo ns f o t g fl i n tf run]
  obtain im kw err c where
    s: "image_save bad_profile_pil im kw (files demo_world ''/p/a.jpg'') = (err, c)"
    and c: "err = None \<and> c \<noteq> None \<and> c \<noteq> Some [] \<longrightarrow>
            (\<exists>m. fst ?run = Inr (''converted'', ''/p/a.heic'', m))"
    by (elim exE conjE) (rule that; assumption)
  from s sv have "err = None \<and> c = Some ''jpeg-data''" by simp
  with c have "\<exists>m. fst ?run = Inr (''converted'', ''/p/a.heic'', m)" by simp
  with tf show ?thesis by simp
qed

subsection \<open>Discovery and letter case\<close>

text \<open>
  C8. Discovery is meant to match extensions without regard to letter case: the set is
  commented \<^verbatim>\<open>case-insensitive\<close> and a path given directly is tested with
  \<^verbatim>\<open>p.suffix.lower() in HEIF_EXTS\<close>. Under a directory, though, the code globs only
  for \<^verbatim>\<open>*.heic\<close> and \<^verbatim>\<open>*.HEIC\<close> (and so on), and on POSIX pathlib matches names
  exactly. So a file \<^verbatim>\<open>IMG_1.HeiC\<close> below a traversed root is not discovered, while
  the same path given as a root is.
\<close>

theorem mixed_case_missed_under_directory:
  "find_heif_files True mixed_tree [''/d''] = [] \<and>
   find_heif_files True mixed_tree [''/d/IMG_1.HeiC''] = [''/d/IMG_1.HeiC'']"
  by (simp add: find_heif_files_def scan_mixed_dir scan_mixed_file)

subsection \<open>The final count\<close>




end
